theory Spec2Isabelle
  imports Main
begin

section \<open>Python values, dictionaries and errors\<close>

text \<open>
  The values that travel through \<^verbatim>\<open>TrainingDatasetEngine\<close>
  (\<^verbatim>\<open>python/hsfs/core/training_dataset_engine.py\<close>): primary-key values of an entry,
  column values of a result row, decoded complex features.
\<close>

datatype pyval =
    PNone
  | PBool bool
  | PInt int
  | PStr string
  | PBytes string
  | PList "pyval list"
  | PTuple "pyval list"

text \<open>\<^verbatim>\<open>hasattr(v, "__iter__")\<close>: strings, bytes, lists and tuples are iterable.\<close>

fun has_iter :: "pyval \<Rightarrow> bool" where
  "has_iter (PStr s) = True"
| "has_iter (PBytes s) = True"
| "has_iter (PList xs) = True"
| "has_iter (PTuple xs) = True"
| "has_iter v = False"

text \<open>\<^verbatim>\<open>isinstance(v, list)\<close>.\<close>

fun is_list :: "pyval \<Rightarrow> bool" where
  "is_list (PList xs) = True"
| "is_list v = False"

text \<open>
  The messages of the four \<^verbatim>\<open>ValueError\<close>s raised by \<^verbatim>\<open>get_serving_vector\<close>:
  \<^item> \<open>EntryExpectedList\<close>: "Entry is expected to be list of primary key values. ..."
    (line 183);
  \<^item> \<open>BatchSizeMismatch\<close>: "Size of provided batch of primary keys doesn't correspond to
    size used during initialisation" (line 194);
  \<^item> \<open>EntryExpectedSingle\<close>: "Entry is expected to be single value per primary key. ..."
    (line 207);
  \<^item> \<open>KeyMapMismatch\<close>: "Provided primary key map doesn't correspond to serving_keys"
    (line 218).
  The specification calls the first three \<open>ServingModeMismatch\<close> and the last
  \<open>KeyMismatch\<close>.
\<close>

datatype value_error_message =
    EntryExpectedList
  | BatchSizeMismatch
  | EntryExpectedSingle
  | KeyMapMismatch

text \<open>
  Exceptions. \<open>BackendError\<close> and \<open>DecodeError\<close> stand for whatever an external
  collaborator (REST client, connection, Avro reader) raises. \<open>ArgumentError\<close> is
  SQLAlchemy's, raised by \<^verbatim>\<open>bindparams\<close> for a name that is not a parameter of the text.
  \<open>ReTemplateEscape\<close> marks a replacement template with a backslash, whose escape
  processing by \<^verbatim>\<open>re.sub\<close> is not modelled.
\<close>

datatype error =
    ValueError value_error_message
  | TypeError
  | IndexError
  | KeyError string
  | AttributeError
  | BackendError string
  | DecodeError
  | ArgumentError string
  | ReTemplateEscape

text \<open>\<^verbatim>\<open>len(v)\<close>: a \<^verbatim>\<open>TypeError\<close> for a value without length.\<close>

fun py_len :: "pyval \<Rightarrow> error + nat" where
  "py_len (PStr s) = Inr (length s)"
| "py_len (PBytes s) = Inr (length s)"
| "py_len (PList xs) = Inr (length xs)"
| "py_len (PTuple xs) = Inr (length xs)"
| "py_len v = Inl TypeError"

text \<open>
  A Python \<^verbatim>\<open>dict\<close> keeps its keys in insertion order; it is an association list here.
  \<^verbatim>\<open>d[k] = v\<close> overwrites the value of an existing key in place and appends a new key
  at the end.
\<close>

fun dict_set :: "('k \<times> 'v) list \<Rightarrow> 'k \<Rightarrow> 'v \<Rightarrow> ('k \<times> 'v) list" where
  "dict_set [] k v = [(k, v)]"
| "dict_set ((k', v') # d) k v =
     (if k' = k then (k', v) # d else (k', v') # dict_set d k v)"

text \<open>\<^verbatim>\<open>dict(items)\<close> and a dict comprehension: the pairs are stored one by one.\<close>

definition dict_of_items :: "('k \<times> 'v) list \<Rightarrow> ('k \<times> 'v) list" where
  "dict_of_items items = foldl (\<lambda>d (k, v). dict_set d k v) [] items"

text \<open>\<^verbatim>\<open>list(d.values())\<close> and \<^verbatim>\<open>d.keys()\<close>.\<close>

definition dict_values :: "('k \<times> 'v) list \<Rightarrow> 'v list" where
  "dict_values d = map snd d"

definition dict_keys :: "('k \<times> 'v) list \<Rightarrow> 'k set" where
  "dict_keys d = set (map fst d)"

type_synonym row_dict = "(string \<times> pyval) list"
type_synonym entry = "(string \<times> pyval) list"

section \<open>The transformation applier\<close>

text \<open>
  \<^verbatim>\<open>_apply_transformation\<close> (lines 334-340). \<open>transformation_fns\<close> maps a feature name to
  the \<^verbatim>\<open>transformation_fn\<close> of its transformation function, a unary function on values.
\<close>

type_synonym transformation_fns = "(string \<times> (pyval \<Rightarrow> pyval)) list"

fun apply_transformation :: "transformation_fns \<Rightarrow> row_dict \<Rightarrow> row_dict" where
  "apply_transformation [] row_dict = row_dict"
| "apply_transformation ((feature_name, transformation_fn) # fns) row_dict =
     apply_transformation fns
       (case map_of row_dict feature_name of
          None \<Rightarrow> row_dict
        | Some v \<Rightarrow> dict_set row_dict feature_name (transformation_fn v))"

section \<open>The row decoder\<close>

text \<open>
  \<^verbatim>\<open>deserialize_complex_features\<close> (lines 154-159). \<open>feature_schemas\<close> maps the name of a
  complex feature to its Avro reader, taken as a function from the stored bytes to the
  decoded value that may fail. \<^verbatim>\<open>row_dict[feature_name]\<close> raises \<^verbatim>\<open>KeyError\<close> when the
  row has no such column.
\<close>

type_synonym feature_schemas = "(string \<times> (pyval \<Rightarrow> error + pyval)) list"

fun deserialize_complex_features :: "feature_schemas \<Rightarrow> row_dict \<Rightarrow> error + row_dict" where
  "deserialize_complex_features [] row_dict = Inr row_dict"
| "deserialize_complex_features ((feature_name, schema_read) # schemas) row_dict =
     (case map_of row_dict feature_name of
        None \<Rightarrow> Inl (KeyError feature_name)
      | Some blob \<Rightarrow>
          (case schema_read blob of
             Inl e \<Rightarrow> Inl e
           | Inr v \<Rightarrow> deserialize_complex_features schemas (dict_set row_dict feature_name v)))"

section \<open>The template rewriter\<close>

text \<open>
  The pattern \<^verbatim>\<open>^(.*?)\?\<close> matches, from the start of the string, the shortest run of
  characters other than a newline that is followed by \<^verbatim>\<open>?\<close>: group 1 is the text before
  the first \<^verbatim>\<open>?\<close>, and there is no match when a newline comes before it or when the string
  has no \<^verbatim>\<open>?\<close>. \<open>match_first_placeholder\<close> returns group 1 and the text after the match.
\<close>

fun match_first_placeholder :: "string \<Rightarrow> (string \<times> string) option" where
  "match_first_placeholder [] = None"
| "match_first_placeholder (c # s) =
     (if c = CHR ''?'' then Some ([], s)
      else if c = CHR 0x0A then None
      else map_option (\<lambda>(group1, rest). (c # group1, rest)) (match_first_placeholder s))"

text \<open>
  \<^verbatim>\<open>re.sub(r"^(.*?)\?", r"\1:" + pk_name, query_online)\<close> (lines 307-311). The pattern is
  anchored at the start, so at most one match is replaced; a string without a match is
  returned unchanged. The replacement is a template: a \<open>pk_name\<close> without a backslash stands
  for itself.
\<close>

definition re_sub_placeholder :: "string \<Rightarrow> string \<Rightarrow> error + string" where
  "re_sub_placeholder pk_name query_online =
     (if CHR 0x5C \<in> set pk_name then Inl ReTemplateEscape
      else case match_first_placeholder query_online of
             None \<Rightarrow> Inr query_online
           | Some (group1, rest) \<Rightarrow> Inr (group1 @ '':'' @ pk_name @ rest))"

text \<open>
  The loop of lines 305-311 on the query text alone. (The same loop adds every name to
  the serving keys; \<open>build_statements\<close> below does that.)
\<close>

fun rewrite_placeholders :: "string list \<Rightarrow> string \<Rightarrow> error + string" where
  "rewrite_placeholders [] query_online = Inr query_online"
| "rewrite_placeholders (pk_name # pk_names) query_online =
     (case re_sub_placeholder pk_name query_online of
        Inl e \<Rightarrow> Inl e
      | Inr q \<Rightarrow> rewrite_placeholders pk_names q)"

text \<open>\<^verbatim>\<open>str(...).replace("\n", " ")\<close> (line 286).\<close>

definition replace_newlines :: "string \<Rightarrow> string" where
  "replace_newlines s = map (\<lambda>c. if c = CHR 0x0A then CHR '' '' else c) s"

section \<open>The training dataset and its collaborators\<close>

text \<open>
  A compiled statement: the text given to \<^verbatim>\<open>sql.text\<close> and the names bound with
  \<^verbatim>\<open>bindparam(pk_name, expanding=True)\<close> (none in single mode).
\<close>

datatype statement = Statement string "string list"

datatype connector = Connector nat
datatype engine = Engine nat

text \<open>What the metadata service returns for one feature-group lookup.\<close>

record prepared_statement_parameter =
  psp_name :: string
  psp_index :: int

record serving_prepared_statement =
  prepared_statement_index :: int
  query_online :: string
  prepared_statement_parameters :: "prepared_statement_parameter list"

text \<open>
  \<^verbatim>\<open>TrainingDatasetFeature\<close> (\<^verbatim>\<open>python/hsfs/training_dataset_feature.py\<close>), with the
  fields the serving path reads: the name, \<^verbatim>\<open>str(self._type)\<close>, and the outcome of
  building the reader of the feature, \<^verbatim>\<open>avro.io.DatumReader(avro.schema.parse(...))\<close> on
  the feature group's Avro schema of the feature: an exception or the reader.
\<close>

record training_dataset_feature =
  feature_name :: string
  feature_type :: string
  avro_reader :: "error + (pyval \<Rightarrow> error + pyval)"

text \<open>The fields of the training dataset object that the engine reads and writes.\<close>

record training_dataset =
  prepared_statement_engine :: "engine option"
  prepared_statements :: "(int \<times> statement) list option"
  serving_keys :: "string set option"
  serving_batch_size :: "int option"
  transformation_functions :: transformation_fns
  schema :: "training_dataset_feature list"

text \<open>
  The collaborators, taken as parameters: the storage connector API, \<^verbatim>\<open>util\<close>, the
  training dataset API, the transformation function engine, the connection of the online
  store (\<open>execute\<close> is \<^verbatim>\<open>connect()\<close>, \<^verbatim>\<open>execute(statement, entry)\<close> and
  \<^verbatim>\<open>fetchall()\<close>; a row is the list \<^verbatim>\<open>row.items()\<close>), the constant
  \<^verbatim>\<open>Feature.COMPLEX_TYPES\<close>, and SQLAlchemy's reading of a text: \<open>text_bindparams\<close> gives
  the names of the parameters that \<^verbatim>\<open>sql.text\<close> finds in it. Each call to a service may
  raise.
\<close>

record env =
  get_online_connector :: "error + connector"
  create_mysql_engine :: "connector \<Rightarrow> bool \<Rightarrow> error + engine"
  get_serving_prepared_statement ::
    "training_dataset \<Rightarrow> bool \<Rightarrow> error + serving_prepared_statement list"
  get_td_transformation_fn :: "training_dataset \<Rightarrow> error + transformation_fns"
  execute :: "engine \<Rightarrow> statement \<Rightarrow> entry \<Rightarrow> error + (string \<times> pyval) list list"
  COMPLEX_TYPES :: "string list"
  text_bindparams :: "string \<Rightarrow> string list"

section \<open>Complex feature schemas\<close>

text \<open>\<^verbatim>\<open>str.upper\<close> on the ASCII letters.\<close>

definition upper_char :: "char \<Rightarrow> char" where
  "upper_char c =
     (case map_of (zip ''abcdefghijklmnopqrstuvwxyz'' ''ABCDEFGHIJKLMNOPQRSTUVWXYZ'') c of
        None \<Rightarrow> c
      | Some u \<Rightarrow> u)"

definition startswith :: "string \<Rightarrow> string \<Rightarrow> bool" where
  "startswith s p = (take (length p) s = p)"

text \<open>\<^verbatim>\<open>is_complex\<close>: the upper-cased type starts with one of the complex types.\<close>

definition is_complex :: "env \<Rightarrow> training_dataset_feature \<Rightarrow> bool" where
  "is_complex ev f = list_ex (startswith (map upper_char (feature_type f))) (COMPLEX_TYPES ev)"

text \<open>
  \<^verbatim>\<open>get_complex_feature_schemas\<close> (lines 145-152): a dict comprehension over the complex
  features of the schema, in the order of the schema.
\<close>

fun complex_feature_schemas ::
  "env \<Rightarrow> training_dataset_feature list \<Rightarrow> feature_schemas \<Rightarrow> error + feature_schemas" where
  "complex_feature_schemas ev [] d = Inr d"
| "complex_feature_schemas ev (f # fs) d =
     (if is_complex ev f then
        (case avro_reader f of
           Inl e \<Rightarrow> Inl e
         | Inr reader \<Rightarrow> complex_feature_schemas ev fs (dict_set d (feature_name f) reader))
      else complex_feature_schemas ev fs d)"

definition get_complex_feature_schemas :: "env \<Rightarrow> training_dataset \<Rightarrow> error + feature_schemas" where
  "get_complex_feature_schemas ev training_dataset =
     complex_feature_schemas ev (schema training_dataset) []"

section \<open>Initialisation of the prepared statements\<close>

text \<open>
  Lines 312-318: \<^verbatim>\<open>sql.text(query_online)\<close> and, in batch mode, \<^verbatim>\<open>bindparams\<close> with
  every name marked as expanding. \<^verbatim>\<open>bindparams\<close> takes the names in order and raises
  \<^verbatim>\<open>ArgumentError\<close> at the first one that is not a parameter of the text.
\<close>

definition compile_statement :: "env \<Rightarrow> bool \<Rightarrow> string list \<Rightarrow> string \<Rightarrow> error + statement" where
  "compile_statement ev batch pk_names q =
     (if batch then
        (case find (\<lambda>pk_name. pk_name \<notin> set (text_bindparams ev q)) pk_names of
           Some pk_name \<Rightarrow> Inl (ArgumentError pk_name)
         | None \<Rightarrow> Inr (Statement q pk_names))
      else Inr (Statement q []))"

text \<open>
  The loop over the prepared statements (lines 283-321): the parameter names sorted by
  their index (a stable sort, as \<^verbatim>\<open>sorted\<close> is), every name added to the serving keys,
  the placeholders rewritten, the statement compiled and stored under its lookup index.
\<close>

fun build_statements ::
  "env \<Rightarrow> bool \<Rightarrow> serving_prepared_statement list \<Rightarrow> (int \<times> statement) list \<Rightarrow> string set
   \<Rightarrow> error + ((int \<times> statement) list \<times> string set)" where
  "build_statements ev batch [] prepared_statements_dict serving_vector_keys =
     Inr (prepared_statements_dict, serving_vector_keys)"
| "build_statements ev batch (prepared_statement # rest) prepared_statements_dict
       serving_vector_keys =
     (let pk_names = map psp_name
            (sort_key psp_index (prepared_statement_parameters prepared_statement))
      in case rewrite_placeholders pk_names (replace_newlines (query_online prepared_statement)) of
           Inl e \<Rightarrow> Inl e
         | Inr q \<Rightarrow>
             (case compile_statement ev batch pk_names q of
                Inl e \<Rightarrow> Inl e
              | Inr stmt \<Rightarrow>
                  build_statements ev batch rest
                    (dict_set prepared_statements_dict
                       (prepared_statement_index prepared_statement) stmt)
                    (serving_vector_keys \<union> set pk_names)))"

text \<open>
  \<^verbatim>\<open>init_prepared_statement\<close> (lines 264-332). The training dataset object is mutated in
  place, so the model returns it together with the outcome: after an exception the caller
  still sees the fields as they were left.
\<close>

definition init_prepared_statement ::
  "env \<Rightarrow> training_dataset \<Rightarrow> int option \<Rightarrow> bool \<Rightarrow> training_dataset \<times> (error + unit)" where
  "init_prepared_statement ev training_dataset batch_size external =
     (let td0 = training_dataset
            \<lparr>prepared_statement_engine := None, prepared_statements := None,
             serving_keys := None, serving_batch_size := None\<rparr>;
          batch = (case batch_size of None \<Rightarrow> False | Some n \<Rightarrow> n > 1);
          td = (if batch then td0\<lparr>serving_batch_size := batch_size\<rparr> else td0)
      in case get_online_connector ev of
           Inl e \<Rightarrow> (td, Inl e)
         | Inr online_conn \<Rightarrow>
       (case create_mysql_engine ev online_conn external of
           Inl e \<Rightarrow> (td, Inl e)
         | Inr mysql_engine \<Rightarrow>
       (case get_serving_prepared_statement ev td batch of
           Inl e \<Rightarrow> (td, Inl e)
         | Inr statements \<Rightarrow>
       (case build_statements ev batch statements [] {} of
           Inl e \<Rightarrow> (td, Inl e)
         | Inr (prepared_statements_dict, serving_vector_keys) \<Rightarrow>
       (case get_td_transformation_fn ev td of
           Inl e \<Rightarrow> (td, Inl e)
         | Inr fns \<Rightarrow>
             (td\<lparr>transformation_functions := fns,
                 prepared_statement_engine := Some mysql_engine,
                 prepared_statements := Some prepared_statements_dict,
                 serving_keys := Some serving_vector_keys\<rparr>, Inr ()))))))"

section \<open>The vector assembler\<close>

text \<open>\<^verbatim>\<open>list(entry.values())[0]\<close>: an \<^verbatim>\<open>IndexError\<close> on an empty entry.\<close>

definition first_value :: "entry \<Rightarrow> error + pyval" where
  "first_value entry = (case dict_values entry of [] \<Rightarrow> Inl IndexError | v # _ \<Rightarrow> Inr v)"

text \<open>\<^verbatim>\<open>[len(x) for x in entry.values()]\<close>.\<close>

fun lens :: "pyval list \<Rightarrow> error + nat list" where
  "lens [] = Inr []"
| "lens (x # xs) =
     (case py_len x of
        Inl e \<Rightarrow> Inl e
      | Inr n \<Rightarrow> (case lens xs of Inl e \<Rightarrow> Inl e | Inr ns \<Rightarrow> Inr (n # ns)))"

text \<open>
  \<^verbatim>\<open>batch_sizes != training_dataset.serving_batch_size\<close> compares a list with an integer:
  in Python they are never equal.
\<close>

definition list_ne_int :: "nat list \<Rightarrow> int \<Rightarrow> bool" where
  "list_ne_int batch_sizes n = True"

text \<open>
  Lines 165-173: without prepared statements, initialise from the shape of the first
  value. \<^verbatim>\<open>isinstance(list(v), list)\<close> holds for every iterable \<open>v\<close>.
\<close>

definition auto_init ::
  "env \<Rightarrow> training_dataset \<Rightarrow> entry \<Rightarrow> bool \<Rightarrow> training_dataset \<times> (error + unit)" where
  "auto_init ev training_dataset entry external =
     (if prepared_statements training_dataset = None then
        (case first_value entry of
           Inl e \<Rightarrow> (training_dataset, Inl e)
         | Inr v \<Rightarrow>
             if has_iter v then
               (case py_len v of
                  Inl e \<Rightarrow> (training_dataset, Inl e)
                | Inr n \<Rightarrow> init_prepared_statement ev training_dataset (Some (int n)) external)
             else init_prepared_statement ev training_dataset None external)
      else (training_dataset, Inr ()))"

text \<open>
  Lines 176-214: the shape of the entry against the serving mode. The result is the flag
  \<open>batch\<close>. \<^verbatim>\<open>list(set(...))\<close> is the list of distinct lengths; only its length is used.
\<close>

definition batch_mode :: "training_dataset \<Rightarrow> bool" where
  "batch_mode training_dataset =
     (case serving_batch_size training_dataset of None \<Rightarrow> False | Some n \<Rightarrow> n > 1)"

definition check_entry_shape :: "training_dataset \<Rightarrow> entry \<Rightarrow> error + bool" where
  "check_entry_shape training_dataset entry =
     (if batch_mode training_dataset then
        (case first_value entry of
           Inl e \<Rightarrow> Inl e
         | Inr v \<Rightarrow>
             if \<not> has_iter v \<and> \<not> is_list v then Inl (ValueError EntryExpectedList)
             else
               (case lens (dict_values entry) of
                  Inl e \<Rightarrow> Inl e
                | Inr ls \<Rightarrow>
                    (let batch_sizes = remdups ls
                     in if length batch_sizes \<noteq> 1
                           \<and> list_ne_int batch_sizes (the (serving_batch_size training_dataset))
                        then Inl (ValueError BatchSizeMismatch)
                        else Inr True)))
      else
        (case first_value entry of
           Inl e \<Rightarrow> Inl e
         | Inr v \<Rightarrow>
             if has_iter v \<and> is_list v then Inl (ValueError EntryExpectedSingle)
             else Inr False))"

text \<open>
  The body of the loop over the rows up to the transformation (lines 234-245).
  \<^verbatim>\<open>"No data was retrieved ..." + entry\<close> adds a dict to a string, so an empty row
  raises \<^verbatim>\<open>TypeError\<close> before the \<^verbatim>\<open>Exception\<close> is built.
\<close>

definition process_row ::
  "transformation_fns \<Rightarrow> feature_schemas \<Rightarrow> (string \<times> pyval) list \<Rightarrow> error + row_dict" where
  "process_row fns complex_features row =
     (case deserialize_complex_features complex_features (dict_of_items row) of
        Inl e \<Rightarrow> Inl e
      | Inr result_dict \<Rightarrow>
          if result_dict = [] then Inl TypeError
          else Inr (apply_transformation fns result_dict))"

text \<open>
  The loop over the rows of one lookup (lines 233-253); it returns the last
  \<open>result_dict\<close> and the batch accumulator.
\<close>

type_synonym batch_dicts = "(nat \<times> pyval list) list"

fun rows_loop ::
  "transformation_fns \<Rightarrow> feature_schemas \<Rightarrow> bool \<Rightarrow> (string \<times> pyval) list list
   \<Rightarrow> row_dict \<Rightarrow> nat \<Rightarrow> batch_dicts \<Rightarrow> error + (row_dict \<times> batch_dicts)" where
  "rows_loop fns cf batch [] result_dict order_in_batch batch_dicts =
     Inr (result_dict, batch_dicts)"
| "rows_loop fns cf batch (row # rows) result_dict order_in_batch batch_dicts =
     (case process_row fns cf row of
        Inl e \<Rightarrow> Inl e
      | Inr rd \<Rightarrow>
          rows_loop fns cf batch rows rd (Suc order_in_batch)
            (if batch then
               (case map_of batch_dicts order_in_batch of
                  Some vec \<Rightarrow> dict_set batch_dicts order_in_batch (vec @ dict_values rd)
                | None \<Rightarrow> dict_set batch_dicts order_in_batch (dict_values rd))
             else batch_dicts))"

text \<open>
  The loop over the cached statements (lines 227-256), in the order of the dictionary:
  iterating the keys and looking each one up is iterating the items. \<open>executed\<close> lists the
  lookup indices whose statement was sent to the online store, also when the store then
  raised.
\<close>

fun statements_loop ::
  "env \<Rightarrow> training_dataset \<Rightarrow> feature_schemas \<Rightarrow> bool \<Rightarrow> entry \<Rightarrow> (int \<times> statement) list
   \<Rightarrow> int list \<Rightarrow> pyval list \<Rightarrow> batch_dicts
   \<Rightarrow> int list \<times> (error + (pyval list \<times> batch_dicts))" where
  "statements_loop ev td cf batch entry [] executed serving_vector batch_dicts =
     (executed, Inr (serving_vector, batch_dicts))"
| "statements_loop ev td cf batch entry ((idx, stmt) # rest)
       executed serving_vector batch_dicts =
     (case prepared_statement_engine td of
        None \<Rightarrow> (executed, Inl AttributeError)
      | Some eng \<Rightarrow>
          (case execute ev eng stmt entry of
             Inl e \<Rightarrow> (executed @ [idx], Inl e)
           | Inr result_proxy \<Rightarrow>
               (case rows_loop (transformation_functions td) cf batch result_proxy [] 0 batch_dicts of
                  Inl e \<Rightarrow> (executed @ [idx], Inl e)
                | Inr (result_dict, batch_dicts') \<Rightarrow>
                    statements_loop ev td cf batch entry rest
                      (executed @ [idx])
                      (if batch then serving_vector else serving_vector @ dict_values result_dict)
                      batch_dicts')))"

datatype served = Vector "pyval list" | BatchVectors "pyval list list"

text \<open>
  \<^verbatim>\<open>get_serving_vector\<close> (lines 161-262). The result is the training dataset as the call
  leaves it, the lookups executed, and the exception raised or the value returned.
\<close>

definition get_serving_vector ::
  "env \<Rightarrow> training_dataset \<Rightarrow> entry \<Rightarrow> bool
   \<Rightarrow> training_dataset \<times> int list \<times> (error + served)" where
  "get_serving_vector ev training_dataset entry external =
     (case auto_init ev training_dataset entry external of
        (td, Inl e) \<Rightarrow> (td, [], Inl e)
      | (td, Inr u) \<Rightarrow>
          (case check_entry_shape td entry of
             Inl e \<Rightarrow> (td, [], Inl e)
           | Inr batch \<Rightarrow>
               if Some (dict_keys entry) \<noteq> serving_keys td
               then (td, [], Inl (ValueError KeyMapMismatch))
               else
                 (case get_complex_feature_schemas ev td of
                    Inl e \<Rightarrow> (td, [], Inl e)
                  | Inr complex_features \<Rightarrow>
                 (case prepared_statements td of
                    None \<Rightarrow> (td, [], Inl TypeError)
                  | Some stmts \<Rightarrow>
                      (case statements_loop ev td complex_features batch entry stmts [] [] [] of
                         (executed, Inl e) \<Rightarrow> (td, executed, Inl e)
                       | (executed, Inr (serving_vector, batch_dicts)) \<Rightarrow>
                           (td, executed,
                            Inr (if batch then BatchVectors (dict_values batch_dicts)
                                 else Vector serving_vector)))))))"

section \<open>A small online store\<close>

text \<open>
  Concrete collaborators on which the definitions above can be run. Feature group 0 has
  the features \<open>a\<close> and \<open>b\<close>, feature group 1 the features \<open>c\<close> and \<open>d\<close>; both are keyed
  by \<open>id\<close>. The store holds no row for a negative id and two rows for id 7.
\<close>

definition ex_lookup0 :: serving_prepared_statement where
  "ex_lookup0 = \<lparr>prepared_statement_index = 0, query_online = ''fg0 WHERE id = ?'',
     prepared_statement_parameters = [\<lparr>psp_name = ''id'', psp_index = 0\<rparr>]\<rparr>"

definition ex_lookup1 :: serving_prepared_statement where
  "ex_lookup1 = \<lparr>prepared_statement_index = 1, query_online = ''fg1 WHERE id = ?'',
     prepared_statement_parameters = [\<lparr>psp_name = ''id'', psp_index = 0\<rparr>]\<rparr>"

definition ex_lookup2 :: serving_prepared_statement where
  "ex_lookup2 = \<lparr>prepared_statement_index = 0, query_online = ''fg0 WHERE id = ? AND b = ?'',
     prepared_statement_parameters =
       [\<lparr>psp_name = ''b'', psp_index = 1\<rparr>, \<lparr>psp_name = ''id'', psp_index = 0\<rparr>]\<rparr>"

definition ex_rows :: "string \<Rightarrow> int \<Rightarrow> (string \<times> pyval) list" where
  "ex_rows q k =
     (if take 3 q = ''fg1'' then [(''c'', PInt (100 * k)), (''d'', PInt (100 * k + 1))]
      else [(''a'', PInt (10 * k)), (''b'', PInt (10 * k + 1))])"

definition ex_execute ::
  "engine \<Rightarrow> statement \<Rightarrow> entry \<Rightarrow> error + (string \<times> pyval) list list" where
  "ex_execute eng stmt entry =
     (case stmt of Statement q ns \<Rightarrow>
        (case map_of entry ''id'' of
           Some (PInt k) \<Rightarrow>
             Inr (if k < 0 then [] else if k = 7 then [ex_rows q 6, ex_rows q 7] else [ex_rows q k])
         | Some (PList ks) \<Rightarrow> Inr (map (\<lambda>v. case v of PInt k \<Rightarrow> ex_rows q k | _ \<Rightarrow> []) ks)
         | _ \<Rightarrow> Inr []))"

text \<open>The parameters of a text: the words that follow a colon.\<close>

definition word_char :: "char \<Rightarrow> bool" where
  "word_char c =
     (c \<in> set ''abcdefghijklmnopqrstuvwxyzABCDEFGHIJKLMNOPQRSTUVWXYZ0123456789_'')"

fun ex_text_bindparams :: "string \<Rightarrow> string list" where
  "ex_text_bindparams [] = []"
| "ex_text_bindparams (c # s) =
     (if c = CHR '':'' \<and> takeWhile word_char s \<noteq> []
      then takeWhile word_char s # ex_text_bindparams s
      else ex_text_bindparams s)"

definition ex_env :: "serving_prepared_statement list \<Rightarrow> env" where
  "ex_env lookups =
     \<lparr>get_online_connector = Inr (Connector 0),
      create_mysql_engine = (\<lambda>online_conn external. Inr (Engine 0)),
      get_serving_prepared_statement = (\<lambda>td batch. Inr lookups),
      get_td_transformation_fn = (\<lambda>td. Inr []),
      execute = ex_execute,
      COMPLEX_TYPES = [''MAP'', ''ARRAY'', ''STRUCT'', ''UNIONTYPE''],
      text_bindparams = ex_text_bindparams\<rparr>"

text \<open>The same collaborators when the online store cannot be reached.\<close>

definition ex_env_down :: env where
  "ex_env_down = (ex_env [ex_lookup0, ex_lookup1])
     \<lparr>create_mysql_engine := (\<lambda>online_conn external. Inl (BackendError ''connection refused''))\<rparr>"

text \<open>A training dataset object before any initialisation; none of its features is complex.\<close>

definition ex_schema :: "training_dataset_feature list" where
  "ex_schema =
     [\<lparr>feature_name = ''a'', feature_type = ''bigint'', avro_reader = Inl DecodeError\<rparr>,
      \<lparr>feature_name = ''c'', feature_type = ''string'', avro_reader = Inl DecodeError\<rparr>]"

definition ex_td :: training_dataset where
  "ex_td = \<lparr>prepared_statement_engine = None, prepared_statements = None,
     serving_keys = None, serving_batch_size = None, transformation_functions = [],
     schema = ex_schema\<rparr>"

text \<open>The training dataset after \<^verbatim>\<open>init_prepared_statement\<close> with the given lookups.\<close>

definition ex_init :: "serving_prepared_statement list \<Rightarrow> int option \<Rightarrow> training_dataset" where
  "ex_init lookups batch_size = fst (init_prepared_statement (ex_env lookups) ex_td batch_size False)"

text \<open>Two transformation functions: \<open>b\<close> is incremented, \<open>z\<close> is not a feature of the store.\<close>

definition ex_fns :: transformation_fns where
  "ex_fns = [(''b'', \<lambda>v. case v of PInt i \<Rightarrow> PInt (i + 1) | _ \<Rightarrow> v), (''z'', \<lambda>v. PNone)]"







text \<open>A lookup that declares two parameters for a template with one placeholder.\<close>

definition ex_lookup4 :: serving_prepared_statement where
  "ex_lookup4 = \<lparr>prepared_statement_index = 0, query_online = ''fg0 WHERE id = ?'',
     prepared_statement_parameters =
       [\<lparr>psp_name = ''id'', psp_index = 0\<rparr>, \<lparr>psp_name = ''b'', psp_index = 1\<rparr>]\<rparr>"

section \<open>Facts about dictionaries\<close>

lemma dict_set_present:
  "distinct (map fst d) \<Longrightarrow> map_of d k = Some v \<Longrightarrow>
   dict_set d k (f v) = map (\<lambda>(k', v'). (k', if k' = k then f v' else v')) d"
proof (induction d)
  case Nil
  then show ?case by simp
next
  case (Cons p d)
  obtain k0 v0 where p: "p = (k0, v0)" by (cases p)
  show ?case
  proof (cases "k0 = k")
    case True
    with Cons.prems p have "v0 = v" by simp
    moreover have "map (\<lambda>(k', v'). (k', if k' = k then f v' else v')) d = d"
      using Cons.prems True p by (intro map_idI) (auto simp: rev_image_eqI)
    ultimately show ?thesis using True p by simp
  next
    case False
    with Cons p show ?thesis by simp
  qed
qed

lemma dict_set_absent: "k \<notin> fst ` set d \<Longrightarrow> dict_set d k v = d @ [(k, v)]"
  by (induction d) auto

lemma dict_set_nth:
  "distinct (map fst d) \<Longrightarrow> i < length d \<Longrightarrow> fst (d ! i) = k \<Longrightarrow> dict_set d k v = d[i := (k, v)]"
proof (induction d arbitrary: i)
  case Nil
  then show ?case by simp
next
  case (Cons p d)
  show ?case
  proof (cases i)
    case 0
    with Cons.prems show ?thesis by (cases p) simp
  next
    case (Suc j)
    with Cons.prems have "d ! j \<in> set d" by simp
    then have "k \<in> fst ` set d" using Cons.prems(3) Suc by force
    moreover have "fst p \<notin> fst ` set d" using Cons.prems(1) by simp
    ultimately have "fst p \<noteq> k" by blast
    with Cons Suc show ?thesis by (cases p) simp
  qed
qed

lemma enumerated_lookup:
  assumes "map fst bd = [0..<length bd]" and "p < length bd"
  shows "map_of bd p = Some (snd (bd ! p))" and "fst (bd ! p) = p" and "distinct (map fst bd)"
proof -
  show d: "distinct (map fst bd)" using assms(1) by simp
  show f: "fst (bd ! p) = p"
    using assms by (metis add_0 length_map nth_map nth_upt)
  have "(p, snd (bd ! p)) \<in> set bd"
    using assms(2) f by (metis nth_mem prod.collapse)
  then show "map_of bd p = Some (snd (bd ! p))"
    using d by simp
qed

lemma enumerated_fresh:
  assumes "map fst bd = [0..<length bd]"
  shows "map_of bd (length bd) = None" and "length bd \<notin> fst ` set bd"
proof -
  have "set (map fst bd) = {0..<length bd}" using assms by (metis atLeastLessThan_upt)
  then show "length bd \<notin> fst ` set bd" by auto
  then show "map_of bd (length bd) = None" by (simp add: map_of_eq_None_iff)
qed

section \<open>The transformation applier changes exactly the mapped features\<close>

text \<open>
  Claim C9. For a mapping of feature names to transformation functions and a result row
  (two dictionaries, so the keys of each are distinct), \<^verbatim>\<open>_apply_transformation\<close> returns
  the row with the same columns in the same order, where the value \<open>v\<close> of every column
  named in the mapping is replaced by \<open>f v\<close> for its function \<open>f\<close> and every other value is
  unchanged. A mapping entry for a feature that is not a column of the row has no effect.
\<close>

theorem apply_transformation_pointwise:
  assumes "distinct (map fst fns)" and "distinct (map fst row_dict)"
  shows "apply_transformation fns row_dict =
         map (\<lambda>(name, v). (name, case map_of fns name of None \<Rightarrow> v | Some f \<Rightarrow> f v)) row_dict"
  using assms
proof (induction fns arbitrary: row_dict)
  case Nil
  then show ?case by simp
next
  case (Cons p fns)
  obtain n f where p: "p = (n, f)" by (cases p)
  from Cons.prems p have nfresh: "map_of fns n = None" and dfns: "distinct (map fst fns)"
    by (auto simp: map_of_eq_None_iff)
  show ?case
  proof (cases "map_of row_dict n")
    case None
    then have "\<And>k v. (k, v) \<in> set row_dict \<Longrightarrow> k \<noteq> n"
      by (auto simp: map_of_eq_None_iff rev_image_eqI)
    then show ?thesis
      using None p Cons.IH [OF dfns Cons.prems(2)] by (auto intro!: map_cong)
  next
    case (Some v)
    let ?g = "\<lambda>(k', v'). (k', if k' = n then f v' else v')"
    have step: "dict_set row_dict n (f v) = map ?g row_dict"
      using dict_set_present [OF Cons.prems(2) Some] .
    have keys: "map fst (map ?g row_dict) = map fst row_dict"
      by (induction row_dict) auto
    have "apply_transformation (p # fns) row_dict = apply_transformation fns (map ?g row_dict)"
      using p Some step by simp
    also have "\<dots> = map (\<lambda>(name, v). (name, case map_of fns name of None \<Rightarrow> v | Some f \<Rightarrow> f v))
                       (map ?g row_dict)"
    proof -
      have "distinct (map fst (map ?g row_dict))"
        using Cons.prems(2) by (simp only: keys)
      then show ?thesis by (rule Cons.IH [OF dfns])
    qed
    also have "\<dots> = map (\<lambda>(name, v). (name, case map_of (p # fns) name of None \<Rightarrow> v | Some f \<Rightarrow> f v))
                       row_dict"
      using p nfresh by (auto simp: o_def split: option.splits prod.splits)
    finally show ?thesis .
  qed
qed

theorem apply_transformation_pointwise_witness:
  "apply_transformation ex_fns [(''a'', PInt 10), (''b'', PInt 20)] =
     [(''a'', PInt 10), (''b'', PInt 21)]"
  using apply_transformation_pointwise [of ex_fns "[(''a'', PInt 10), (''b'', PInt 20)]"]
  by (simp add: ex_fns_def)

section \<open>The rewrite of the placeholders\<close>

lemma match_first_placeholder_prefix:
  "CHR ''?'' \<notin> set p \<Longrightarrow> CHR 0x0A \<notin> set p \<Longrightarrow>
   match_first_placeholder (p @ CHR ''?'' # rest) = Some (p, rest)"
  by (induction p) auto

lemma rewrite_placeholders_segments:
  assumes "length pk_names = length segs"
    and "\<forall>n \<in> set pk_names. CHR ''?'' \<notin> set n \<and> CHR 0x5C \<notin> set n \<and> CHR 0x0A \<notin> set n"
    and "CHR ''?'' \<notin> set p0" and "CHR 0x0A \<notin> set p0"
    and "\<forall>s \<in> set segs. CHR ''?'' \<notin> set s \<and> CHR 0x0A \<notin> set s"
  shows "rewrite_placeholders pk_names (p0 @ concat (map (\<lambda>s. CHR ''?'' # s) segs)) =
         Inr (p0 @ concat (map (\<lambda>(n, s). '':'' @ n @ s) (zip pk_names segs)))"
  using assms
proof (induction pk_names segs arbitrary: p0 rule: list_induct2)
  case Nil
  then show ?case by simp
next
  case (Cons n ns s ss)
  have m: "match_first_placeholder (p0 @ CHR ''?'' # (s @ concat (map (\<lambda>s. CHR ''?'' # s) ss)))
           = Some (p0, s @ concat (map (\<lambda>s. CHR ''?'' # s) ss))"
    using Cons.prems(2,3) by (rule match_first_placeholder_prefix)
  have sub: "re_sub_placeholder n (p0 @ concat (map (\<lambda>s. CHR ''?'' # s) (s # ss))) =
             Inr ((p0 @ '':'' @ n @ s) @ concat (map (\<lambda>s. CHR ''?'' # s) ss))"
    using Cons.prems(1) m by (simp add: re_sub_placeholder_def)
  have "rewrite_placeholders ns ((p0 @ '':'' @ n @ s) @ concat (map (\<lambda>s. CHR ''?'' # s) ss)) =
        Inr ((p0 @ '':'' @ n @ s) @ concat (map (\<lambda>(n, s). '':'' @ n @ s) (zip ns ss)))"
    using Cons.prems by (intro Cons.IH) auto
  then show ?case
    using sub by simp
qed

lemma replace_newlines_template:
  "replace_newlines (p0 @ concat (map (\<lambda>s. CHR ''?'' # s) segs)) =
   replace_newlines p0 @ concat (map (\<lambda>s. CHR ''?'' # s) (map replace_newlines segs))"
  by (induction segs arbitrary: p0) (simp_all add: replace_newlines_def)

lemma replace_newlines_free:
  "CHR 0x0A \<notin> set (replace_newlines s)"
  "CHR ''?'' \<notin> set s \<Longrightarrow> CHR ''?'' \<notin> set (replace_newlines s)"
  by (auto simp: replace_newlines_def)

lemma rewrite_placeholders_clean:
  assumes "length pk_names = length segs"
    and "\<forall>n \<in> set pk_names. CHR ''?'' \<notin> set n \<and> CHR 0x5C \<notin> set n \<and> CHR 0x0A \<notin> set n"
    and "\<forall>s \<in> set (p0 # segs). CHR ''?'' \<notin> set s"
  shows "rewrite_placeholders pk_names
           (replace_newlines (p0 @ concat (map (\<lambda>s. CHR ''?'' # s) segs))) =
         Inr (replace_newlines p0 @
              concat (map (\<lambda>(n, s). '':'' @ n @ replace_newlines s) (zip pk_names segs)))
       \<and> CHR ''?'' \<notin> set (replace_newlines p0 @
              concat (map (\<lambda>(n, s). '':'' @ n @ replace_newlines s) (zip pk_names segs)))"
proof -
  let ?q = "replace_newlines p0 @
            concat (map (\<lambda>(n, s). '':'' @ n @ s) (zip pk_names (map replace_newlines segs)))"
  have run: "rewrite_placeholders pk_names
          (replace_newlines p0 @ concat (map (\<lambda>s. CHR ''?'' # s) (map replace_newlines segs))) = Inr ?q"
    using assms by (intro rewrite_placeholders_segments) (auto simp: replace_newlines_free)
  have form: "?q = replace_newlines p0 @
                 concat (map (\<lambda>(n, s). '':'' @ n @ replace_newlines s) (zip pk_names segs))"
    by (simp add: zip_map2 case_prod_unfold o_def)
  have free: "CHR ''?'' \<notin> set ?q"
  proof -
    have "\<And>n s. (n, s) \<in> set (zip pk_names (map replace_newlines segs))
            \<Longrightarrow> CHR ''?'' \<notin> set n \<and> CHR ''?'' \<notin> set s"
    proof -
      fix n s assume "(n, s) \<in> set (zip pk_names (map replace_newlines segs))"
      then have "n \<in> set pk_names" and "s \<in> set (map replace_newlines segs)"
        by (auto dest: set_zip_leftD set_zip_rightD)
      then show "CHR ''?'' \<notin> set n \<and> CHR ''?'' \<notin> set s"
        using assms(2,3) by (auto simp: replace_newlines_free)
    qed
    then show ?thesis
      using assms(3) by (auto simp: replace_newlines_free)
  qed
  from run have "rewrite_placeholders pk_names
           (replace_newlines (p0 @ concat (map (\<lambda>s. CHR ''?'' # s) segs))) = Inr ?q"
    by (simp only: replace_newlines_template)
  with free show ?thesis by (simp only: form) simp
qed

text \<open>
  Every template has this form: the text before its first \<^verbatim>\<open>?\<close> and one segment for each
  \<^verbatim>\<open>?\<close>.
\<close>

lemma template_segments:
  "\<exists>p0 segs. t = p0 @ concat (map (\<lambda>s. CHR ''?'' # s) segs)
      \<and> (\<forall>s \<in> set (p0 # segs). CHR ''?'' \<notin> set s)
      \<and> length segs = count_list t CHR ''?''"
proof (induction t)
  case Nil
  have "[] = [] @ concat (map (\<lambda>s. CHR ''?'' # s) [])
      \<and> (\<forall>s \<in> set ([] # []). CHR ''?'' \<notin> set s)
      \<and> length ([] :: string list) = count_list [] CHR ''?''" by simp
  then show ?case by blast
next
  case (Cons c t)
  then obtain p0 segs where t: "t = p0 @ concat (map (\<lambda>s. CHR ''?'' # s) segs)"
    and free: "\<forall>s \<in> set (p0 # segs). CHR ''?'' \<notin> set s"
    and len: "length segs = count_list t CHR ''?''"
    by blast
  show ?case
  proof (cases "c = CHR ''?''")
    case True
    have "c # t = [] @ concat (map (\<lambda>s. CHR ''?'' # s) (p0 # segs))
      \<and> (\<forall>s \<in> set ([] # p0 # segs). CHR ''?'' \<notin> set s)
      \<and> length (p0 # segs) = count_list (c # t) CHR ''?''"
      using True t free len by simp
    then show ?thesis by blast
  next
    case False
    have "c # t = (c # p0) @ concat (map (\<lambda>s. CHR ''?'' # s) segs)
      \<and> (\<forall>s \<in> set ((c # p0) # segs). CHR ''?'' \<notin> set s)
      \<and> length segs = count_list (c # t) CHR ''?''"
      using False t free len by simp
    then show ?thesis by blast
  qed
qed

text \<open>
  A \<^verbatim>\<open>?\<close> of the template that is not a placeholder is rewritten like one: here the name
  lands in the string literal and the placeholder remains.
\<close>

lemma rewrite_placeholders_literal_question_mark:
  "rewrite_placeholders [''id''] (replace_newlines ''x = 'a?' AND id = ?'') =
     Inr ''x = 'a:id' AND id = ?''"
  by (simp add: re_sub_placeholder_def replace_newlines_def)

text \<open>
  Claim C4, as stated, fails: the rewrite looks for the first \<^verbatim>\<open>?\<close> of the text
  rewritten so far, so a \<^verbatim>\<open>?\<close> inside a parameter name is taken for the next
  placeholder. With the names \<^verbatim>\<open>x?\<close> and \<^verbatim>\<open>y\<close> and a template with two placeholders, the
  second name lands inside the first, and the second placeholder remains.
\<close>

theorem rewrite_placeholders_name_with_placeholder:
  "rewrite_placeholders [''x?'', ''y''] (replace_newlines ''a = ? AND b = ?'') =
     Inr ''a = :x:y AND b = ?''"
  by (simp add: re_sub_placeholder_def replace_newlines_def)

text \<open>
  Claim C4, amended. Take a lookup whose template has no \<^verbatim>\<open>?\<close> other than its \<open>N\<close>
  placeholders (it is a text \<open>lead\<close> followed by \<open>N\<close> segments, each a \<^verbatim>\<open>?\<close> and the text up to
  the next one, and these texts contain no \<^verbatim>\<open>?\<close>), and whose \<open>N\<close> parameter names, sorted
  by their declared index, contain no \<^verbatim>\<open>?\<close>, no backslash and no newline. Then the rewrite
  performed during init returns the same texts (newlines turned into spaces) with the
  \<open>i\<close>-th placeholder replaced by a colon and the \<open>i\<close>-th name: every entry of the list of
  names is inserted exactly once, in the left-to-right order of the placeholders (a name
  listed twice is inserted twice), and no \<^verbatim>\<open>?\<close> is left. The rewrite has no effect beyond
  its result: all that the init loop does with the lookup is to store the statement of
  the rewritten text under the lookup's index and to add the names to the serving keys
  (in batch mode after \<^verbatim>\<open>bindparams\<close> has accepted the names).
\<close>

theorem rewrite_placeholders_named:
  assumes names: "pk_names = map psp_name (sort_key psp_index (prepared_statement_parameters ps))"
    and template: "query_online ps = lead @ concat (map (\<lambda>s. CHR ''?'' # s) segs)"
    and texts: "\<forall>s \<in> set (lead # segs). CHR ''?'' \<notin> set s"
    and count: "length pk_names = length segs"
    and clean: "\<forall>n \<in> set pk_names. CHR ''?'' \<notin> set n \<and> CHR 0x5C \<notin> set n \<and> CHR 0x0A \<notin> set n"
    and q: "q = replace_newlines lead @
              concat (map (\<lambda>(n, s). '':'' @ n @ replace_newlines s) (zip pk_names segs))"
  shows "rewrite_placeholders pk_names (replace_newlines (query_online ps)) = Inr q
       \<and> CHR ''?'' \<notin> set q
       \<and> build_statements ev False [ps] d keys =
           Inr (dict_set d (prepared_statement_index ps) (Statement q []), keys \<union> set pk_names)
       \<and> build_statements ev True [ps] d keys =
           (case find (\<lambda>n. n \<notin> set (text_bindparams ev q)) pk_names of
              Some n \<Rightarrow> Inl (ArgumentError n)
            | None \<Rightarrow>
                Inr (dict_set d (prepared_statement_index ps) (Statement q pk_names),
                     keys \<union> set pk_names))"
proof -
  have run: "rewrite_placeholders pk_names (replace_newlines (query_online ps)) = Inr q"
    using rewrite_placeholders_clean [OF count clean texts] template q by simp
  have free: "CHR ''?'' \<notin> set q"
    using rewrite_placeholders_clean [OF count clean texts] q by simp
  have run': "rewrite_placeholders
                (map psp_name (sort_key psp_index (prepared_statement_parameters ps)))
                (replace_newlines (query_online ps)) = Inr q"
    using run names by simp
  have single: "build_statements ev False [ps] d keys =
           Inr (dict_set d (prepared_statement_index ps) (Statement q []), keys \<union> set pk_names)"
    using run' names by (simp add: compile_statement_def Let_def)
  have batch: "build_statements ev True [ps] d keys =
           (case find (\<lambda>n. n \<notin> set (text_bindparams ev q)) pk_names of
              Some n \<Rightarrow> Inl (ArgumentError n)
            | None \<Rightarrow>
                Inr (dict_set d (prepared_statement_index ps) (Statement q pk_names),
                     keys \<union> set pk_names))"
    using run' names by (simp add: compile_statement_def Let_def split: option.splits)
  from run free single batch show ?thesis by blast
qed

theorem rewrite_placeholders_named_witness:
  "rewrite_placeholders [''id'', ''b''] (replace_newlines (query_online ex_lookup2)) =
     Inr ''fg0 WHERE id = :id AND b = :b''
   \<and> build_statements (ex_env []) False [ex_lookup2] [] {} =
       Inr ([(0, Statement ''fg0 WHERE id = :id AND b = :b'' [])], {''id'', ''b''})
   \<and> build_statements (ex_env []) True [ex_lookup2] [] {} =
       Inr ([(0, Statement ''fg0 WHERE id = :id AND b = :b'' [''id'', ''b''])], {''id'', ''b''})"
proof -
  have names: "[''id'', ''b''] =
      map psp_name (sort_key psp_index (prepared_statement_parameters ex_lookup2))"
    by (simp add: ex_lookup2_def)
  have template: "query_online ex_lookup2 =
      ''fg0 WHERE id = '' @ concat (map (\<lambda>s. CHR ''?'' # s) ['' AND b = '', []])"
    by (simp add: ex_lookup2_def)
  have texts: "\<forall>s \<in> set [''fg0 WHERE id = '', '' AND b = '', []]. CHR ''?'' \<notin> set s"
    by simp
  have count: "length [''id'', ''b''] = length ['' AND b = '', ([] :: string)]"
    by simp
  have clean: "\<forall>n \<in> set [''id'', ''b''].
      CHR ''?'' \<notin> set n \<and> CHR 0x5C \<notin> set n \<and> CHR 0x0A \<notin> set n"
    by simp
  have q: "''fg0 WHERE id = :id AND b = :b'' = replace_newlines ''fg0 WHERE id = '' @
      concat (map (\<lambda>(n, s). '':'' @ n @ replace_newlines s)
        (zip [''id'', ''b''] ['' AND b = '', []]))"
    by (simp add: replace_newlines_def)
  have idx: "prepared_statement_index ex_lookup2 = 0"
    by (simp add: ex_lookup2_def)
  have bound: "text_bindparams (ex_env []) ''fg0 WHERE id = :id AND b = :b'' = [''id'', ''b'']"
    by (simp add: ex_env_def word_char_def)
  show ?thesis
    using rewrite_placeholders_named [OF names template texts count clean q,
        where ev = "ex_env []" and d = "[]" and keys = "{}"]
    by (simp add: idx bound insert_commute
        del: build_statements.simps rewrite_placeholders.simps)
qed

section \<open>Initialisation\<close>

text \<open>The state that initialisation builds on the small store.\<close>

lemmas ex_defs = ex_init_def ex_env_def ex_td_def ex_lookup0_def ex_lookup1_def ex_lookup2_def
  init_prepared_statement_def re_sub_placeholder_def replace_newlines_def Let_def
  compile_statement_def word_char_def

lemma ex_init_single_desc:
  "ex_init [ex_lookup1, ex_lookup0] None =
     \<lparr>prepared_statement_engine = Some (Engine 0),
      prepared_statements = Some [(1, Statement ''fg1 WHERE id = :id'' []), (0, Statement ''fg0 WHERE id = :id'' [])],
      serving_keys = Some {''id''}, serving_batch_size = None, transformation_functions = [],
      schema = ex_schema\<rparr>"
  by (simp add: ex_defs)

lemma ex_init_batch_desc:
  "ex_init [ex_lookup1, ex_lookup0] (Some 3) =
     \<lparr>prepared_statement_engine = Some (Engine 0),
      prepared_statements = Some [(1, Statement ''fg1 WHERE id = :id'' [''id'']), (0, Statement ''fg0 WHERE id = :id'' [''id''])],
      serving_keys = Some {''id''}, serving_batch_size = Some 3, transformation_functions = [],
      schema = ex_schema\<rparr>"
  by (simp add: ex_defs)

lemma ex_init_two_keys:
  "ex_init [ex_lookup2] None =
     \<lparr>prepared_statement_engine = Some (Engine 0),
      prepared_statements = Some [(0, Statement ''fg0 WHERE id = :id AND b = :b'' [])],
      serving_keys = Some {''id'', ''b''}, serving_batch_size = None, transformation_functions = [],
      schema = ex_schema\<rparr>"
  by (simp add: ex_defs insert_commute)

lemma ex_init_single_asc:
  "ex_init [ex_lookup0, ex_lookup1] None =
     \<lparr>prepared_statement_engine = Some (Engine 0),
      prepared_statements = Some [(0, Statement ''fg0 WHERE id = :id'' []), (1, Statement ''fg1 WHERE id = :id'' [])],
      serving_keys = Some {''id''}, serving_batch_size = None, transformation_functions = [],
      schema = ex_schema\<rparr>"
  by (simp add: ex_defs)

lemma ex_init_batch_asc:
  "ex_init [ex_lookup0, ex_lookup1] (Some 3) =
     \<lparr>prepared_statement_engine = Some (Engine 0),
      prepared_statements = Some [(0, Statement ''fg0 WHERE id = :id'' [''id'']), (1, Statement ''fg1 WHERE id = :id'' [''id''])],
      serving_keys = Some {''id''}, serving_batch_size = Some 3, transformation_functions = [],
      schema = ex_schema\<rparr>"
  by (simp add: ex_defs)


text \<open>
  A lookup with more parameters than placeholders: the rewrite leaves the surplus name
  out; in batch mode \<^verbatim>\<open>bindparams\<close> then rejects it and init raises, in single mode the
  statement is cached.
\<close>

lemma init_batch_unbound_name:
  "init_prepared_statement (ex_env [ex_lookup4]) ex_td (Some 3) False =
     (ex_td\<lparr>serving_batch_size := Some 3\<rparr>, Inl (ArgumentError ''b''))"
  "prepared_statements (fst (init_prepared_statement (ex_env [ex_lookup4]) ex_td None False)) =
     Some [(0, Statement ''fg0 WHERE id = :id'' [])]"
  by (simp_all add: ex_defs ex_lookup4_def)

text \<open>Which features are complex, on two types.\<close>

lemma is_complex_examples:
  "is_complex (ex_env [])
     \<lparr>feature_name = ''e'', feature_type = ''array<int>'', avro_reader = Inl DecodeError\<rparr>"
  "\<not> is_complex (ex_env [])
     \<lparr>feature_name = ''a'', feature_type = ''bigint'', avro_reader = Inl DecodeError\<rparr>"
  by (simp_all add: is_complex_def ex_env_def startswith_def upper_char_def)

text \<open>
  Claim C8. \<^verbatim>\<open>init_prepared_statement\<close> starts by setting the connection engine, the
  statement cache, the serving keys and the batch size to \<^verbatim>\<open>None\<close>. Hence, whatever values
  an earlier initialisation left in these four fields, the training dataset after the
  call and the outcome of the call are the same: nothing of the earlier values survives.
  The batch size after the call is the new one (or \<^verbatim>\<open>None\<close> in single mode), and when the
  call raises, the engine, the cache and the keys are left at \<^verbatim>\<open>None\<close>.
\<close>

theorem init_discards_previous_serving_state:
  "init_prepared_statement ev
     (td\<lparr>prepared_statement_engine := e, prepared_statements := p,
         serving_keys := k, serving_batch_size := b\<rparr>) batch_size external =
   init_prepared_statement ev td batch_size external
   \<and> serving_batch_size (fst (init_prepared_statement ev td batch_size external)) =
       (if (case batch_size of None \<Rightarrow> False | Some n \<Rightarrow> n > 1) then batch_size else None)
   \<and> (isl (snd (init_prepared_statement ev td batch_size external)) \<longrightarrow>
        prepared_statement_engine (fst (init_prepared_statement ev td batch_size external)) = None
      \<and> prepared_statements (fst (init_prepared_statement ev td batch_size external)) = None
      \<and> serving_keys (fst (init_prepared_statement ev td batch_size external)) = None)"
  by (simp add: init_prepared_statement_def Let_def split: sum.splits prod.splits)

theorem init_discards_previous_serving_state_witness:
  "init_prepared_statement (ex_env [ex_lookup0, ex_lookup1])
     (ex_td\<lparr>prepared_statement_engine := Some (Engine 5),
            prepared_statements := Some [(4, Statement ''fg4 WHERE k = :k'' [''k''])],
            serving_keys := Some {''k''}, serving_batch_size := Some 9\<rparr>) None False =
   (ex_init [ex_lookup0, ex_lookup1] None, Inr ())
   \<and> init_prepared_statement ex_env_down
     (ex_init [ex_lookup0, ex_lookup1] None) (Some 3) False =
   (ex_td\<lparr>serving_batch_size := Some 3\<rparr>, Inl (BackendError ''connection refused''))"
  using init_discards_previous_serving_state
    [where ev = "ex_env [ex_lookup0, ex_lookup1]" and td = ex_td and e = "Some (Engine 5)"
       and p = "Some [(4, Statement ''fg4 WHERE k = :k'' [''k''])]" and k = "Some {''k''}"
       and b = "Some 9" and batch_size = None and external = False]
    init_discards_previous_serving_state
    [where ev = ex_env_down and td = ex_td and e = "Some (Engine 0)"
       and p = "Some [(0, Statement ''fg0 WHERE id = :id'' []), (1, Statement ''fg1 WHERE id = :id'' [])]"
       and k = "Some {''id''}" and b = None and batch_size = "Some 3" and external = False]
  by (simp add: ex_defs ex_env_down_def)

section \<open>Rows and statements in the vector assembler\<close>

lemma not_isl_projr: "\<not> isl x \<Longrightarrow> x = Inr (projr x)"
  by (cases x) auto

lemma rows_loop_single:
  assumes "\<forall>r \<in> set rows. \<not> isl (process_row fns cf r)"
  shows "rows_loop fns cf False rows rd n bd =
         Inr (if rows = [] then rd else projr (process_row fns cf (last rows)), bd)"
  using assms
proof (induction rows arbitrary: rd n)
  case Nil
  then show ?case by simp
next
  case (Cons r rows)
  then obtain d where d: "process_row fns cf r = Inr d"
    by (cases "process_row fns cf r") auto
  have "rows_loop fns cf False rows d (Suc n) bd =
        Inr (if rows = [] then d else projr (process_row fns cf (last rows)), bd)"
    using Cons.prems by (intro Cons.IH) simp
  then show ?case using d by simp
qed

lemma statements_loop_single:
  assumes "prepared_statement_engine td = Some eng"
    and "\<forall>(idx, stmt) \<in> set stmts. \<exists>rows. execute ev eng stmt entry = Inr rows
           \<and> (\<forall>r \<in> set rows. \<not> isl (process_row (transformation_functions td) cf r))"
  shows "statements_loop ev td cf False entry stmts ex sv bd =
         (ex @ map fst stmts,
          Inr (sv @ concat (map (\<lambda>(idx, stmt).
                  let rows = projr (execute ev eng stmt entry)
                  in if rows = [] then []
                     else dict_values (projr (process_row (transformation_functions td) cf (last rows))))
                stmts), bd))"
  using assms(2)
proof (induction stmts arbitrary: ex sv)
  case Nil
  then show ?case by simp
next
  case (Cons p stmts)
  obtain idx stmt where p: "p = (idx, stmt)" by (cases p)
  from Cons.prems p obtain rows where
    rows: "execute ev eng stmt entry = Inr rows"
      "\<forall>r \<in> set rows. \<not> isl (process_row (transformation_functions td) cf r)"
    by auto
  have rest: "\<forall>(idx, stmt) \<in> set stmts. \<exists>rows. execute ev eng stmt entry = Inr rows
           \<and> (\<forall>r \<in> set rows. \<not> isl (process_row (transformation_functions td) cf r))"
    using Cons.prems by simp
  show ?case
    using p rows(1) assms(1) rows_loop_single [OF rows(2)] Cons.IH [OF rest]
    by (simp add: dict_values_def)
qed

lemma rows_loop_batch_append:
  assumes "map fst bd = [0..<length bd]"
    and "\<forall>r \<in> set rows. \<not> isl (process_row fns cf r)"
  shows "\<exists>rd' bd'. rows_loop fns cf True rows rd (length bd) bd = Inr (rd', bd')
           \<and> map fst bd' = [0..<length bd + length rows]
           \<and> map snd bd' = map snd bd @ map (\<lambda>r. dict_values (projr (process_row fns cf r))) rows"
  using assms
proof (induction rows arbitrary: bd rd)
  case Nil
  then show ?case by simp
next
  case (Cons r rows)
  then obtain d where d: "process_row fns cf r = Inr d"
    by (cases "process_row fns cf r") auto
  let ?bd = "bd @ [(length bd, dict_values d)]"
  have upd: "(case map_of bd (length bd) of
                Some vec \<Rightarrow> dict_set bd (length bd) (vec @ dict_values d)
              | None \<Rightarrow> dict_set bd (length bd) (dict_values d)) = ?bd"
    using enumerated_fresh [OF Cons.prems(1)] by (simp add: dict_set_absent)
  have keys: "map fst ?bd = [0..<length ?bd]"
    using Cons.prems(1) by simp
  have "\<exists>rd' bd'. rows_loop fns cf True rows d (length ?bd) ?bd = Inr (rd', bd')
           \<and> map fst bd' = [0..<length ?bd + length rows]
           \<and> map snd bd' = map snd ?bd @ map (\<lambda>r. dict_values (projr (process_row fns cf r))) rows"
    using Cons.prems(2) by (intro Cons.IH [OF keys]) simp
  then show ?case
    using d upd by simp
qed

lemma rows_loop_batch_stitch:
  assumes "map fst bd = [0..<length bd]"
    and "p + length rows = length bd"
    and "\<forall>r \<in> set rows. \<not> isl (process_row fns cf r)"
  shows "\<exists>rd' bd'. rows_loop fns cf True rows rd p bd = Inr (rd', bd')
           \<and> map fst bd' = [0..<length bd] \<and> length bd' = length bd
           \<and> (\<forall>i < length bd. snd (bd' ! i) =
                 (if p \<le> i then snd (bd ! i) @ dict_values (projr (process_row fns cf (rows ! (i - p))))
                  else snd (bd ! i)))"
  using assms
proof (induction rows arbitrary: bd rd p)
  case Nil
  then show ?case by simp
next
  case (Cons r rows)
  then obtain d where d: "process_row fns cf r = Inr d"
    by (cases "process_row fns cf r") auto
  have p: "p < length bd" using Cons.prems(2) by simp
  let ?bd = "bd[p := (p, snd (bd ! p) @ dict_values d)]"
  have upd: "(case map_of bd p of
                Some vec \<Rightarrow> dict_set bd p (vec @ dict_values d)
              | None \<Rightarrow> dict_set bd p (dict_values d)) = ?bd"
    using enumerated_lookup [OF Cons.prems(1) p] p by (simp add: dict_set_nth)
  have keys: "map fst ?bd = [0..<length ?bd]"
    using Cons.prems(1) p enumerated_lookup(2) [OF Cons.prems(1) p]
    by (simp add: map_update list_update_same_conv)
  have len: "Suc p + length rows = length ?bd" using Cons.prems(2) by simp
  have ok: "\<forall>r \<in> set rows. \<not> isl (process_row fns cf r)" using Cons.prems(3) by simp
  obtain rd' bd' where res: "rows_loop fns cf True rows d (Suc p) ?bd = Inr (rd', bd')"
      "map fst bd' = [0..<length ?bd]" "length bd' = length ?bd"
      "\<forall>i < length ?bd. snd (bd' ! i) =
         (if Suc p \<le> i then snd (?bd ! i) @ dict_values (projr (process_row fns cf (rows ! (i - Suc p))))
          else snd (?bd ! i))"
    using Cons.IH [OF keys len ok, of d] by blast
  have "\<forall>i < length bd. snd (bd' ! i) =
          (if p \<le> i then snd (bd ! i) @ dict_values (projr (process_row fns cf ((r # rows) ! (i - p))))
           else snd (bd ! i))"
  proof (intro allI impI)
    fix i assume i: "i < length bd"
    show "snd (bd' ! i) =
          (if p \<le> i then snd (bd ! i) @ dict_values (projr (process_row fns cf ((r # rows) ! (i - p))))
           else snd (bd ! i))"
    proof (cases "i = p")
      case True
      then show ?thesis using res(4) i d by simp
    next
      case False
      then show ?thesis using res(4) i by (auto simp: nth_Cons' Suc_le_eq)
    qed
  qed
  then show ?case
    using d upd res(1,2,3) by simp
qed

lemma statements_loop_batch_stitch:
  assumes "prepared_statement_engine td = Some eng"
    and "map fst bd = [0..<n]" and "length bd = n"
    and "\<forall>(idx, stmt) \<in> set stmts. \<exists>rows. execute ev eng stmt entry = Inr rows \<and> length rows = n
           \<and> (\<forall>r \<in> set rows. \<not> isl (process_row (transformation_functions td) cf r))"
  shows "\<exists>bd'. statements_loop ev td cf True entry stmts ex sv bd = (ex @ map fst stmts, Inr (sv, bd'))
           \<and> map fst bd' = [0..<n] \<and> length bd' = n
           \<and> (\<forall>i < n. snd (bd' ! i) = snd (bd ! i) @ concat (map (\<lambda>(idx, stmt).
                 dict_values (projr (process_row (transformation_functions td) cf
                    (projr (execute ev eng stmt entry) ! i)))) stmts))"
  using assms(2,3,4)
proof (induction stmts arbitrary: bd ex)
  case Nil
  then show ?case by simp
next
  case (Cons q stmts)
  obtain idx stmt where q: "q = (idx, stmt)" by (cases q)
  from Cons.prems(3) q obtain rows where
    rows: "execute ev eng stmt entry = Inr rows" "length rows = n"
      "\<forall>r \<in> set rows. \<not> isl (process_row (transformation_functions td) cf r)"
    by auto
  have rest: "\<forall>(idx, stmt) \<in> set stmts. \<exists>rows. execute ev eng stmt entry = Inr rows \<and> length rows = n
           \<and> (\<forall>r \<in> set rows. \<not> isl (process_row (transformation_functions td) cf r))"
    using Cons.prems(3) by simp
  have keys: "map fst bd = [0..<length bd]" using Cons.prems(1,2) by simp
  have len: "0 + length rows = length bd" using rows(2) Cons.prems(2) by simp
  obtain rd1 bd1 where one:
      "rows_loop (transformation_functions td) cf True rows [] 0 bd = Inr (rd1, bd1)"
      "map fst bd1 = [0..<n]" "length bd1 = n"
      "\<forall>i < n. snd (bd1 ! i) = snd (bd ! i) @
          dict_values (projr (process_row (transformation_functions td) cf (rows ! i)))"
    using rows_loop_batch_stitch [OF keys len rows(3), of "[]"] Cons.prems(2) by auto
  obtain bd' where two:
      "statements_loop ev td cf True entry stmts (ex @ [idx]) sv bd1 =
         ((ex @ [idx]) @ map fst stmts, Inr (sv, bd'))"
      "map fst bd' = [0..<n]" "length bd' = n"
      "\<forall>i < n. snd (bd' ! i) = snd (bd1 ! i) @ concat (map (\<lambda>(idx, stmt).
                 dict_values (projr (process_row (transformation_functions td) cf
                    (projr (execute ev eng stmt entry) ! i)))) stmts)"
    using Cons.IH [OF one(2,3) rest, of "ex @ [idx]"] by blast
  have "statements_loop ev td cf True entry (q # stmts) ex sv bd =
          (ex @ map fst (q # stmts), Inr (sv, bd'))"
    using q assms(1) rows(1) one(1) two(1) by simp
  moreover have "\<forall>i < n. snd (bd' ! i) = snd (bd ! i) @ concat (map (\<lambda>(idx, stmt).
                 dict_values (projr (process_row (transformation_functions td) cf
                    (projr (execute ev eng stmt entry) ! i)))) (q # stmts))"
    using q rows(1) one(4) two(4) by simp
  ultimately show ?case using two(2,3) by blast
qed

lemma statements_loop_batch:
  assumes "prepared_statement_engine td = Some eng"
    and "stmts \<noteq> []"
    and "\<forall>(idx, stmt) \<in> set stmts. \<exists>rows. execute ev eng stmt entry = Inr rows \<and> length rows = n
           \<and> (\<forall>r \<in> set rows. \<not> isl (process_row (transformation_functions td) cf r))"
  shows "\<exists>bd'. statements_loop ev td cf True entry stmts [] [] [] = (map fst stmts, Inr ([], bd'))
           \<and> dict_values bd' = map (\<lambda>i. concat (map (\<lambda>(idx, stmt).
                 dict_values (projr (process_row (transformation_functions td) cf
                    (projr (execute ev eng stmt entry) ! i)))) stmts)) [0..<n]"
proof -
  obtain idx stmt rest where stmts: "stmts = (idx, stmt) # rest"
    using assms(2) by (cases stmts) auto
  from assms(3) stmts obtain rows where
    rows: "execute ev eng stmt entry = Inr rows" "length rows = n"
      "\<forall>r \<in> set rows. \<not> isl (process_row (transformation_functions td) cf r)"
    by auto
  have rest: "\<forall>(idx, stmt) \<in> set rest. \<exists>rows. execute ev eng stmt entry = Inr rows \<and> length rows = n
           \<and> (\<forall>r \<in> set rows. \<not> isl (process_row (transformation_functions td) cf r))"
    using assms(3) stmts by simp
  have e: "map fst ([] :: batch_dicts) = [0..<length ([] :: batch_dicts)]" by simp
  obtain rd1 bd1 where one:
      "rows_loop (transformation_functions td) cf True rows [] 0 [] = Inr (rd1, bd1)"
      "map fst bd1 = [0..<n]"
      "map snd bd1 = map (\<lambda>r. dict_values (projr (process_row (transformation_functions td) cf r))) rows"
    using rows_loop_batch_append [OF e rows(3), of "[]"] rows(2) by auto
  have len1: "length bd1 = n" using one(2) by (metis diff_zero length_map length_upt)
  have v1: "\<forall>i < n. snd (bd1 ! i) =
              dict_values (projr (process_row (transformation_functions td) cf (rows ! i)))"
    using one(3) len1 rows(2) by (metis nth_map)
  obtain bd' where two:
      "statements_loop ev td cf True entry rest ([] @ [idx]) [] bd1 =
         (([] @ [idx]) @ map fst rest, Inr ([], bd'))"
      "map fst bd' = [0..<n]" "length bd' = n"
      "\<forall>i < n. snd (bd' ! i) = snd (bd1 ! i) @ concat (map (\<lambda>(idx, stmt).
                 dict_values (projr (process_row (transformation_functions td) cf
                    (projr (execute ev eng stmt entry) ! i)))) rest)"
    using statements_loop_batch_stitch [OF assms(1) one(2) len1 rest, of "[] @ [idx]" "[]"] by blast
  have run: "statements_loop ev td cf True entry stmts [] [] [] = (map fst stmts, Inr ([], bd'))"
    using stmts assms(1) rows(1) one(1) two(1) by simp
  have "map snd bd' = map (\<lambda>i. snd (bd' ! i)) [0..<length bd']"
    by (intro nth_equalityI) simp_all
  also have "\<dots> = map (\<lambda>i. concat (map (\<lambda>(idx, stmt).
                 dict_values (projr (process_row (transformation_functions td) cf
                    (projr (execute ev eng stmt entry) ! i)))) stmts)) [0..<n]"
    using two(3,4) v1 stmts rows(1) by simp
  finally show ?thesis using run by (auto simp: dict_values_def)
qed



lemmas serve_defs = get_serving_vector_def auto_init_def check_entry_shape_def batch_mode_def
  first_value_def dict_values_def dict_keys_def get_complex_feature_schemas_def dict_of_items_def
  process_row_def ex_execute_def ex_rows_def ex_env_def list_ne_int_def Let_def
  ex_schema_def is_complex_def startswith_def upper_char_def

lemma get_serving_vector_initialized:
  assumes "prepared_statements td = Some stmts"
    and "check_entry_shape td entry = Inr batch"
    and "serving_keys td = Some (dict_keys entry)"
    and "get_complex_feature_schemas ev td = Inr cf"
  shows "get_serving_vector ev td entry external =
         (case statements_loop ev td cf batch entry stmts [] [] [] of
            (executed, Inl e) \<Rightarrow> (td, executed, Inl e)
          | (executed, Inr (serving_vector, batch_dicts)) \<Rightarrow>
              (td, executed,
               Inr (if batch then BatchVectors (dict_values batch_dicts) else Vector serving_vector)))"
  using assms by (simp add: get_serving_vector_def auto_init_def)


section \<open>Single mode\<close>

text \<open>
  Claim C1, as stated, fails: the statements are executed in the order of the cache, a
  dictionary filled in the order in which the metadata service lists the lookups. When
  lookup 1 is listed before lookup 0, lookup 1 is executed first and its fields \<open>c, d\<close>
  come before the fields \<open>a, b\<close> of lookup 0.
\<close>

theorem single_vector_not_in_index_order:
  "prepared_statements (ex_init [ex_lookup1, ex_lookup0] None) =
     Some [(1, Statement ''fg1 WHERE id = :id'' []), (0, Statement ''fg0 WHERE id = :id'' [])]
   \<and> get_serving_vector (ex_env [ex_lookup1, ex_lookup0]) (ex_init [ex_lookup1, ex_lookup0] None)
       [(''id'', PInt 1)] False =
     (ex_init [ex_lookup1, ex_lookup0] None, [1, 0],
      Inr (Vector [PInt 100, PInt 101, PInt 10, PInt 11]))"
  by (simp add: ex_init_single_desc serve_defs)

text \<open>
  Claim C1, amended. In single mode, for an initialised training dataset whose cache holds
  two lookups, and an entry that passes the shape and key checks: when the lookups return
  rows that decode and transform without error, and the last row of each has the values
  \<open>[a, b]\<close> and \<open>[c, d]\<close>, \<^verbatim>\<open>get_serving_vector\<close> executes the two statements in the order
  of the cache and returns \<open>[a, b, c, d]\<close>. The order of the fields is the order of
  execution; it is ascending in the lookup index when the cache was filled so.
\<close>

theorem single_vector_follows_cache_order:
  assumes cache: "prepared_statements td = Some [(idx_a, stmt_a), (idx_b, stmt_b)]"
    and shape: "check_entry_shape td entry = Inr False"
    and keys: "serving_keys td = Some (dict_keys entry)"
    and schemas: "get_complex_feature_schemas ev td = Inr cf"
    and engine: "prepared_statement_engine td = Some eng"
    and rows_a: "execute ev eng stmt_a entry = Inr rows_a" "rows_a \<noteq> []"
      "\<forall>r \<in> set rows_a. \<not> isl (process_row (transformation_functions td) cf r)"
    and fields_a: "dict_values (projr (process_row (transformation_functions td) cf (last rows_a))) = [a, b]"
    and rows_b: "execute ev eng stmt_b entry = Inr rows_b" "rows_b \<noteq> []"
      "\<forall>r \<in> set rows_b. \<not> isl (process_row (transformation_functions td) cf r)"
    and fields_b: "dict_values (projr (process_row (transformation_functions td) cf (last rows_b))) = [c, d]"
  shows "get_serving_vector ev td entry external = (td, [idx_a, idx_b], Inr (Vector [a, b, c, d]))"
proof -
  have "\<forall>(idx, stmt) \<in> set [(idx_a, stmt_a), (idx_b, stmt_b)]. \<exists>rows. execute ev eng stmt entry = Inr rows
           \<and> (\<forall>r \<in> set rows. \<not> isl (process_row (transformation_functions td) cf r))"
    using rows_a(1,3) rows_b(1,3) by simp
  from statements_loop_single [OF engine this, of "[]" "[]" "[]"]
  have "statements_loop ev td cf False entry [(idx_a, stmt_a), (idx_b, stmt_b)] [] [] [] =
          ([idx_a, idx_b], Inr ([a, b, c, d], []))"
    using rows_a(1,2) fields_a rows_b(1,2) fields_b by simp
  then show ?thesis
    using get_serving_vector_initialized [OF cache shape keys schemas] by simp
qed

theorem single_vector_follows_cache_order_witness:
  "get_serving_vector (ex_env [ex_lookup0, ex_lookup1]) (ex_init [ex_lookup0, ex_lookup1] None)
     [(''id'', PInt 1)] False =
   (ex_init [ex_lookup0, ex_lookup1] None, [0, 1],
    Inr (Vector [PInt 10, PInt 11, PInt 100, PInt 101]))"
  using single_vector_follows_cache_order
    [where td = "ex_init [ex_lookup0, ex_lookup1] None" and ev = "ex_env [ex_lookup0, ex_lookup1]"
       and idx_a = 0 and stmt_a = "Statement ''fg0 WHERE id = :id'' []"
       and idx_b = 1 and stmt_b = "Statement ''fg1 WHERE id = :id'' []"
       and entry = "[(''id'', PInt 1)]" and eng = "Engine 0" and cf = "[]"
       and rows_a = "[[(''a'', PInt 10), (''b'', PInt 11)]]" and a = "PInt 10" and b = "PInt 11"
       and rows_b = "[[(''c'', PInt 100), (''d'', PInt 101)]]" and c = "PInt 100" and d = "PInt 101"
       and external = False]
  by (simp add: ex_init_single_asc serve_defs)



text \<open>
  Claim C3 does not hold of the code. The test for missing data (line 237) stands inside
  the loop over the rows, so it is never reached for a result without rows: the lookup
  contributes nothing and the call returns normally. For the id \<open>-1\<close>, of which the store
  has no row, both lookups are executed and the empty vector is returned.
\<close>

theorem empty_result_returns_empty_vector:
  "get_serving_vector (ex_env [ex_lookup0, ex_lookup1]) (ex_init [ex_lookup0, ex_lookup1] None)
     [(''id'', PInt (- 1))] False =
   (ex_init [ex_lookup0, ex_lookup1] None, [0, 1], Inr (Vector []))"
  by (simp add: ex_init_single_asc serve_defs)

section \<open>Batch mode\<close>

text \<open>
  Claim C2, as stated, fails in the order of the lookups: the rows are stitched in the
  order of the cache, not of the lookup index. When lookup 1 is listed before lookup 0,
  every vector starts with the fields of lookup 1.
\<close>

theorem batch_vectors_not_in_index_order:
  "get_serving_vector (ex_env [ex_lookup1, ex_lookup0]) (ex_init [ex_lookup1, ex_lookup0] (Some 3))
     [(''id'', PList [PInt 1, PInt 2, PInt 3])] False =
   (ex_init [ex_lookup1, ex_lookup0] (Some 3), [1, 0],
    Inr (BatchVectors [[PInt 100, PInt 101, PInt 10, PInt 11],
                       [PInt 200, PInt 201, PInt 20, PInt 21],
                       [PInt 300, PInt 301, PInt 30, PInt 31]]))"
  by (simp add: ex_init_batch_desc serve_defs)

text \<open>
  Claim C2, amended. In batch mode, for an initialised training dataset with at least one
  lookup and an entry that passes the shape and key checks: when every lookup returns \<open>n\<close>
  rows that decode and transform without error, \<^verbatim>\<open>get_serving_vector\<close> executes the
  statements in the order of the cache and returns exactly \<open>n\<close> vectors, in ascending order
  of the batch slot, where vector \<open>i\<close> is the concatenation, over the lookups in the order
  of the cache, of the values of each lookup's row at position \<open>i\<close>.
\<close>

theorem batch_vectors_stitched_by_position:
  assumes cache: "prepared_statements td = Some stmts" and some: "stmts \<noteq> []"
    and shape: "check_entry_shape td entry = Inr True"
    and keys: "serving_keys td = Some (dict_keys entry)"
    and schemas: "get_complex_feature_schemas ev td = Inr cf"
    and engine: "prepared_statement_engine td = Some eng"
    and rows: "\<forall>(idx, stmt) \<in> set stmts. \<exists>rows. execute ev eng stmt entry = Inr rows \<and> length rows = n
           \<and> (\<forall>r \<in> set rows. \<not> isl (process_row (transformation_functions td) cf r))"
  shows "get_serving_vector ev td entry external =
         (td, map fst stmts,
          Inr (BatchVectors (map (\<lambda>i. concat (map (\<lambda>(idx, stmt).
                 dict_values (projr (process_row (transformation_functions td) cf
                   (projr (execute ev eng stmt entry) ! i))))
               stmts)) [0..<n])))"
proof -
  obtain bd' where
    "statements_loop ev td cf True entry stmts [] [] [] = (map fst stmts, Inr ([], bd'))"
    "dict_values bd' = map (\<lambda>i. concat (map (\<lambda>(idx, stmt).
                 dict_values (projr (process_row (transformation_functions td) cf
                   (projr (execute ev eng stmt entry) ! i))))
               stmts)) [0..<n]"
    using statements_loop_batch [OF engine some rows] by blast
  then show ?thesis
    using get_serving_vector_initialized [OF cache shape keys schemas] by simp
qed

theorem batch_vectors_stitched_by_position_witness:
  "get_serving_vector (ex_env [ex_lookup0, ex_lookup1]) (ex_init [ex_lookup0, ex_lookup1] (Some 3))
     [(''id'', PList [PInt 1, PInt 2, PInt 3])] False =
   (ex_init [ex_lookup0, ex_lookup1] (Some 3), [0, 1],
    Inr (BatchVectors [[PInt 10, PInt 11, PInt 100, PInt 101],
                       [PInt 20, PInt 21, PInt 200, PInt 201],
                       [PInt 30, PInt 31, PInt 300, PInt 301]]))"
  using batch_vectors_stitched_by_position
    [where td = "ex_init [ex_lookup0, ex_lookup1] (Some 3)" and ev = "ex_env [ex_lookup0, ex_lookup1]"
       and stmts = "[(0, Statement ''fg0 WHERE id = :id'' [''id'']), (1, Statement ''fg1 WHERE id = :id'' [''id''])]"
       and entry = "[(''id'', PList [PInt 1, PInt 2, PInt 3])]" and eng = "Engine 0" and cf = "[]"
       and n = 3 and external = False]
  by (simp add: ex_init_batch_asc serve_defs upt_rec)

text \<open>
  Claim C5 does not hold of the code. The test of line 190 joins "the lengths differ" and
  "the lengths are not the batch size" by \<^verbatim>\<open>and\<close>, and compares the list of lengths with
  the integer batch size, which are never equal: only unequal lengths are rejected. After
  initialisation with batch size 3, an entry with two ids per key passes, both lookups
  are executed and two vectors are returned.
\<close>

theorem batch_size_not_compared:
  "serving_batch_size (ex_init [ex_lookup0, ex_lookup1] (Some 3)) = Some 3
   \<and> get_serving_vector (ex_env [ex_lookup0, ex_lookup1]) (ex_init [ex_lookup0, ex_lookup1] (Some 3))
       [(''id'', PList [PInt 1, PInt 2])] False =
     (ex_init [ex_lookup0, ex_lookup1] (Some 3), [0, 1],
      Inr (BatchVectors [[PInt 10, PInt 11, PInt 100, PInt 101],
                         [PInt 20, PInt 21, PInt 200, PInt 201]]))"
  by (simp add: ex_init_batch_asc serve_defs)

text \<open>
  The half of the test that works: sequences of unequal lengths are rejected before any
  statement is executed.
\<close>

lemma batch_unequal_lengths_rejected:
  assumes "prepared_statements td \<noteq> None" and "batch_mode td"
    and "first_value entry = Inr v" and "has_iter v"
    and "lens (dict_values entry) = Inr ls" and "length (remdups ls) \<noteq> 1"
  shows "get_serving_vector ev td entry external = (td, [], Inl (ValueError BatchSizeMismatch))"
  using assms
  by (auto simp: get_serving_vector_def auto_init_def check_entry_shape_def list_ne_int_def)

section \<open>The checks on the entry\<close>

text \<open>
  Claim C6, as stated, fails: only the first value of the entry is inspected. In single
  mode an entry whose first value is a scalar and whose second value is a list passes the
  check, and the lookup is executed.
\<close>

theorem single_mode_accepts_later_sequence:
  "get_serving_vector (ex_env [ex_lookup2]) (ex_init [ex_lookup2] None)
     [(''id'', PInt 1), (''b'', PList [PInt 1, PInt 2])] False =
   (ex_init [ex_lookup2] None, [0], Inr (Vector [PInt 10, PInt 11]))"
  by (simp add: ex_init_two_keys serve_defs insert_commute)

text \<open>
  Claim C6, amended. For an initialised training dataset and a non-empty entry:
  in single mode, when the first value of the entry is a list, and in batch mode, when the
  first value of the entry is not iterable, \<^verbatim>\<open>get_serving_vector\<close> raises the
  \<^verbatim>\<open>ValueError\<close> of the mode (the specification's \<open>ServingModeMismatch\<close>), before any
  statement is executed and without changing the training dataset.
\<close>

theorem mode_mismatch_on_first_value:
  assumes "prepared_statements td \<noteq> None"
    and "first_value entry = Inr v"
    and "if batch_mode td then \<not> has_iter v else is_list v"
  shows "get_serving_vector ev td entry external =
         (td, [], Inl (ValueError (if batch_mode td then EntryExpectedList else EntryExpectedSingle)))"
proof (cases "batch_mode td")
  case True
  with assms(3) have "\<not> has_iter v" by simp
  then have "\<not> is_list v" by (cases v) simp_all
  with True \<open>\<not> has_iter v\<close> assms(1,2) show ?thesis
    by (auto simp: get_serving_vector_def auto_init_def check_entry_shape_def)
next
  case False
  with assms(3) have l: "is_list v" by simp
  then have "has_iter v" by (cases v) simp_all
  with False l assms(1,2) show ?thesis
    by (auto simp: get_serving_vector_def auto_init_def check_entry_shape_def)
qed

theorem mode_mismatch_on_first_value_witness:
  "get_serving_vector (ex_env [ex_lookup0, ex_lookup1]) (ex_init [ex_lookup0, ex_lookup1] None)
     [(''id'', PList [PInt 1, PInt 2])] False =
   (ex_init [ex_lookup0, ex_lookup1] None, [], Inl (ValueError EntryExpectedSingle))
   \<and> get_serving_vector (ex_env [ex_lookup0, ex_lookup1]) (ex_init [ex_lookup0, ex_lookup1] (Some 3))
     [(''id'', PInt 1)] False =
   (ex_init [ex_lookup0, ex_lookup1] (Some 3), [], Inl (ValueError EntryExpectedList))"
  using mode_mismatch_on_first_value
    [of "ex_init [ex_lookup0, ex_lookup1] None" "[(''id'', PList [PInt 1, PInt 2])]"
        "PList [PInt 1, PInt 2]" "ex_env [ex_lookup0, ex_lookup1]" False]
    mode_mismatch_on_first_value
    [of "ex_init [ex_lookup0, ex_lookup1] (Some 3)" "[(''id'', PInt 1)]"
        "PInt 1" "ex_env [ex_lookup0, ex_lookup1]" False]
  by (simp add: ex_init_single_asc ex_init_batch_asc batch_mode_def first_value_def dict_values_def)

text \<open>
  Claim C7, as stated, fails: the shape of the entry is checked before its keys. In single
  mode, with the serving keys \<open>{id}\<close>, the entry with the keys \<open>id\<close> and \<open>x\<close> whose first
  value is a list raises the error of the mode, not the error of the keys.
\<close>

theorem shape_check_precedes_key_check:
  "serving_keys (ex_init [ex_lookup0, ex_lookup1] None) = Some {''id''}
   \<and> get_serving_vector (ex_env [ex_lookup0, ex_lookup1]) (ex_init [ex_lookup0, ex_lookup1] None)
       [(''id'', PList [PInt 1, PInt 2]), (''x'', PInt 3)] False =
     (ex_init [ex_lookup0, ex_lookup1] None, [], Inl (ValueError EntryExpectedSingle))"
  by (simp add: ex_init_single_asc serve_defs)

text \<open>
  Claim C7, amended. For an initialised training dataset and an entry that passes the check
  of its shape against the serving mode: when the set of keys of the entry differs from
  the cached serving keys (a strict subset, a strict superset, or any other set),
  \<^verbatim>\<open>get_serving_vector\<close> raises the \<^verbatim>\<open>ValueError\<close> of the keys (the specification's
  \<open>KeyMismatch\<close>) before any statement is executed.
\<close>

theorem key_mismatch_after_shape_check:
  assumes "prepared_statements td \<noteq> None"
    and "check_entry_shape td entry = Inr batch"
    and "serving_keys td \<noteq> Some (dict_keys entry)"
  shows "get_serving_vector ev td entry external = (td, [], Inl (ValueError KeyMapMismatch))"
  using assms by (auto simp: get_serving_vector_def auto_init_def)

theorem key_mismatch_after_shape_check_witness:
  "get_serving_vector (ex_env [ex_lookup2]) (ex_init [ex_lookup2] None) [(''id'', PInt 1)] False =
     (ex_init [ex_lookup2] None, [], Inl (ValueError KeyMapMismatch))
   \<and> get_serving_vector (ex_env [ex_lookup0, ex_lookup1]) (ex_init [ex_lookup0, ex_lookup1] (Some 3))
       [(''id'', PList [PInt 1, PInt 2, PInt 3]), (''x'', PList [PInt 4, PInt 5, PInt 6])] False =
     (ex_init [ex_lookup0, ex_lookup1] (Some 3), [], Inl (ValueError KeyMapMismatch))"
  using key_mismatch_after_shape_check
    [of "ex_init [ex_lookup2] None" "[(''id'', PInt 1)]" False "ex_env [ex_lookup2]" False]
    key_mismatch_after_shape_check
    [of "ex_init [ex_lookup0, ex_lookup1] (Some 3)"
        "[(''id'', PList [PInt 1, PInt 2, PInt 3]), (''x'', PList [PInt 4, PInt 5, PInt 6])]" True
        "ex_env [ex_lookup0, ex_lookup1]" False]
  by (simp add: ex_init_two_keys ex_init_batch_asc check_entry_shape_def batch_mode_def
      first_value_def dict_values_def dict_keys_def list_ne_int_def)

end
